theory Spec2Isabelle
  imports Main
begin

section \<open>Strings\<close>

text \<open>
  A JavaScript string is modelled as a \<^typ>\<open>string\<close>: the list of its code units, of
  which only those below 256 are represented. All string operations of the source
  (\<^verbatim>\<open>includes\<close>, \<^verbatim>\<open>startsWith\<close>, \<^verbatim>\<open>split\<close>, \<^verbatim>\<open>trim\<close>, the regular
  expressions) work code unit by code unit and compare against ASCII text only.
\<close>

definition startsWith :: "string \<Rightarrow> string \<Rightarrow> bool" where
  \<comment> \<open>\<^verbatim>\<open>s.startsWith(p)\<close>\<close>
  "startsWith s p = (take (length p) s = p)"

definition endsWith :: "string \<Rightarrow> string \<Rightarrow> bool" where
  \<comment> \<open>\<^verbatim>\<open>s.endsWith(p)\<close>; used for a pattern anchored with \<^verbatim>\<open>$\<close>\<close>
  "endsWith s p = (length p \<le> length s \<and> drop (length s - length p) s = p)"

fun str_includes :: "string \<Rightarrow> string \<Rightarrow> bool" where
  \<comment> \<open>\<^verbatim>\<open>s.includes(t)\<close>: \<open>t\<close> occurs in \<open>s\<close> as a contiguous run\<close>
  "str_includes [] t = (t = [])"
| "str_includes (c # cs) t = (startsWith (c # cs) t \<or> str_includes cs t)"

definition toLower :: "char \<Rightarrow> char" where
  \<comment> \<open>case folding of the \<^verbatim>\<open>i\<close> flag, which on the ASCII letters of the pattern
      identifies \<^verbatim>\<open>A-Z\<close> with \<^verbatim>\<open>a-z\<close> and nothing else\<close>
  "toLower c =
     (let n = (of_char c :: nat) in if 65 \<le> n \<and> n \<le> 90 then char_of (n + 32) else c)"

fun split_str :: "char \<Rightarrow> string \<Rightarrow> string list" where
  \<comment> \<open>\<^verbatim>\<open>s.split(sep)\<close> for a one-character separator; the empty string gives \<^verbatim>\<open>['']\<close>\<close>
  "split_str sep [] = [[]]"
| "split_str sep (c # cs) =
     (if c = sep then [] # split_str sep cs
      else (case split_str sep cs of
              w # ws \<Rightarrow> (c # w) # ws
            | [] \<Rightarrow> [[c]]))"

fun join :: "string \<Rightarrow> string list \<Rightarrow> string" where
  \<comment> \<open>\<^verbatim>\<open>xs.join(sep)\<close>\<close>
  "join sep [] = []"
| "join sep [x] = x"
| "join sep (x # y # ys) = x @ sep @ join sep (y # ys)"

definition isWhiteSpace :: "char \<Rightarrow> bool" where
  \<comment> \<open>the white space and line terminators that \<^verbatim>\<open>trim\<close> removes, among the
      code units below 256: TAB, LF, VT, FF, CR, SP, NBSP\<close>
  "isWhiteSpace c = ((of_char c :: nat) \<in> {9, 10, 11, 12, 13, 32, 160})"

definition trim :: "string \<Rightarrow> string" where
  \<comment> \<open>\<^verbatim>\<open>s.trim()\<close>\<close>
  "trim s = rev (dropWhile isWhiteSpace (rev (dropWhile isWhiteSpace s)))"

section \<open>JavaScript values, errors and the console\<close>

text \<open>
  The value that \<^verbatim>\<open>response.json()\<close> yields is untyped in the source
  (\<^verbatim>\<open>any\<close>), so it is modelled as an arbitrary JSON value. An object is the list of its
  properties, read with \<^const>\<open>map_of\<close>. Of a number only its truthiness is observed.
  \<open>JUndefined\<close> is what reading an absent property gives; it never occurs inside a
  parsed body.
\<close>

datatype jsval =
    JUndefined
  | JNull
  | JBool bool
  | JNum int
  | JStr string
  | JArr "jsval list"
  | JObj "(string \<times> jsval) list"

text \<open>A thrown value: every value thrown here is an \<^verbatim>\<open>Error\<close> object with a
  name and a message.\<close>

datatype js_error = Thrown (name: string) (message: string)

definition RateLimited :: js_error where
  "RateLimited = Thrown ''Error''
     ''GitHub API rate limit exceeded. Please try again later (usually resets in an hour).''"

definition NotFound :: "string list \<Rightarrow> js_error" where
  "NotFound branches = Thrown ''Error''
     (''Failed to fetch repository. It might be private, non-existent, or using a non-standard default branch (checked: ''
      @ join '', '' branches @ '').'')"

text \<open>
  The \<^verbatim>\<open>TypeError\<close> that the engine raises when a property of \<^verbatim>\<open>null\<close> or
  \<^verbatim>\<open>undefined\<close> is read, or when a value that is not a function is called. The wording
  of its message depends on the engine; it is put together from the identifiers of the
  failing expression, never from the data.
\<close>

definition TypeError :: "string \<Rightarrow> js_error" where
  "TypeError what = Thrown ''TypeError'' (''Cannot read properties or call: '' @ what)"

datatype console_entry =
    Warn string
  | ConsoleError string js_error

record io =
  requests :: "string list"
  console :: "console_entry list"

definition truthy :: "jsval \<Rightarrow> bool" where
  "truthy v =
     (case v of
        JUndefined \<Rightarrow> False
      | JNull \<Rightarrow> False
      | JBool b \<Rightarrow> b
      | JNum n \<Rightarrow> n \<noteq> 0
      | JStr s \<Rightarrow> s \<noteq> []
      | JArr _ \<Rightarrow> True
      | JObj _ \<Rightarrow> True)"

fun getProp :: "jsval \<Rightarrow> string \<Rightarrow> js_error + jsval" where
  \<comment> \<open>the property read \<^verbatim>\<open>v.k\<close>, for the data properties that the source reads
      (\<^verbatim>\<open>truncated\<close>, \<^verbatim>\<open>tree\<close>, \<^verbatim>\<open>type\<close>, \<^verbatim>\<open>path\<close>), which no prototype has\<close>
  "getProp JUndefined k = Inl (TypeError k)"
| "getProp JNull k = Inl (TypeError k)"
| "getProp (JObj kvs) k = Inr (case map_of kvs k of None \<Rightarrow> JUndefined | Some v \<Rightarrow> v)"
| "getProp v k = Inr JUndefined"

section \<open>The filter of \<^verbatim>\<open>fetchRepoFileTree\<close>\<close>

definition extensions :: "string list" where
  "extensions =
     [''js'', ''jsx'', ''ts'', ''tsx'', ''py'', ''go'', ''rs'', ''java'', ''c'', ''cpp'',
      ''h'', ''hpp'', ''cs'', ''php'', ''rb'', ''swift'', ''kt'', ''dart'', ''json'',
      ''yaml'', ''yml'', ''toml'', ''xml'', ''html'', ''css'']"

definition matchExt :: "string \<Rightarrow> bool" where
  \<comment> \<open>\<^verbatim>\<open>path.match(/\.(js|jsx|...|css)$/i)\<close> is not null\<close>
  "matchExt path = list_ex (\<lambda>e. endsWith (map toLower path) (CHR ''.'' # e)) extensions"

definition keepPath :: "string \<Rightarrow> bool" where
  "keepPath path =
     (matchExt path \<and>
      \<not> str_includes path ''node_modules'' \<and>
      \<not> str_includes path ''dist/'' \<and>
      \<not> str_includes path ''build/'' \<and>
      \<not> startsWith path ''.'')"

definition keepItem :: "jsval \<Rightarrow> js_error + bool" where
  \<comment> \<open>the callback of \<^verbatim>\<open>filter\<close>; \<^verbatim>\<open>item.path\<close> is read only when the type is
      \<^verbatim>\<open>'blob'\<close>, and calling \<^verbatim>\<open>match\<close> on anything but a string throws\<close>
  "keepItem item =
     (case getProp item ''type'' of
        Inl e \<Rightarrow> Inl e
      | Inr t \<Rightarrow>
          if t \<noteq> JStr ''blob'' then Inr False
          else (case getProp item ''path'' of
                  Inl e \<Rightarrow> Inl e
                | Inr (JStr path) \<Rightarrow> Inr (keepPath path)
                | Inr _ \<Rightarrow> Inl (TypeError ''item.path.match'')))"

fun filterE :: "('a \<Rightarrow> js_error + bool) \<Rightarrow> 'a list \<Rightarrow> js_error + 'a list" where
  \<comment> \<open>\<^verbatim>\<open>Array.prototype.filter\<close> with a callback that may throw\<close>
  "filterE p [] = Inr []"
| "filterE p (x # xs) =
     (case p x of
        Inl e \<Rightarrow> Inl e
      | Inr b \<Rightarrow>
          (case filterE p xs of
             Inl e \<Rightarrow> Inl e
           | Inr ys \<Rightarrow> Inr (if b then x # ys else ys)))"

definition filterTree :: "jsval \<Rightarrow> js_error + jsval list" where
  \<comment> \<open>\<^verbatim>\<open>(data.tree || []).filter(...)\<close>\<close>
  "filterTree data =
     (case getProp data ''tree'' of
        Inl e \<Rightarrow> Inl e
      | Inr t \<Rightarrow>
          (case (if truthy t then t else JArr []) of
             JArr items \<Rightarrow> filterE keepItem items
           | _ \<Rightarrow> Inl (TypeError ''(data.tree || []).filter'')))"

section \<open>The remote and the loop over the candidate branches\<close>

text \<open>
  What one \<^verbatim>\<open>fetch\<close> of a URL gives: the promise rejects (network failure), or there
  is a response with a status and a body, whose \<^verbatim>\<open>json()\<close> rejects (malformed body)
  or yields a value. By the Fetch standard, \<^verbatim>\<open>response.ok\<close> holds exactly for the
  statuses 200 to 299.
\<close>

datatype json_result = JsonRejected js_error | Json jsval

datatype fetch_result = FetchRejected js_error | Response nat json_result

type_synonym remote = "string \<Rightarrow> fetch_result"

definition ok :: "nat \<Rightarrow> bool" where
  "ok status = (200 \<le> status \<and> status \<le> 299)"

definition treeUrl :: "string \<Rightarrow> string \<Rightarrow> string \<Rightarrow> string" where
  "treeUrl owner repo branch =
     ''https://api.github.com/repos/'' @ owner @ ''/'' @ repo @ ''/git/trees/'' @ branch
       @ ''?recursive=1''"

definition truncatedWarning :: console_entry where
  "truncatedWarning =
     Warn ''Warning: Repository tree is too large and was truncated by GitHub API.''"

text \<open>How the body of the \<^verbatim>\<open>try\<close> block ends.\<close>

datatype 'a completion = Returned 'a | Threw js_error | FellThrough

definition tryBlock :: "remote \<Rightarrow> string \<Rightarrow> io \<Rightarrow> (jsval list) completion \<times> io" where
  "tryBlock remote url s =
     (let s1 = s\<lparr>requests := requests s @ [url]\<rparr> in
      case remote url of
        FetchRejected e \<Rightarrow> (Threw e, s1)
      | Response status body \<Rightarrow>
          if ok status then
            (case body of
               JsonRejected e \<Rightarrow> (Threw e, s1)
             | Json data \<Rightarrow>
                 (case getProp data ''truncated'' of
                    Inl e \<Rightarrow> (Threw e, s1)
                  | Inr tr \<Rightarrow>
                      let s2 = (if truthy tr
                                then s1\<lparr>console := console s1 @ [truncatedWarning]\<rparr>
                                else s1)
                      in (case filterTree data of
                            Inl e \<Rightarrow> (Threw e, s2)
                          | Inr files \<Rightarrow> (Returned files, s2))))
          else if status = 403 \<or> status = 429 then (Threw RateLimited, s1)
          else (FellThrough, s1))"

fun forBranches ::
  "remote \<Rightarrow> string \<Rightarrow> string \<Rightarrow> string list \<Rightarrow> string list \<Rightarrow> io
     \<Rightarrow> (js_error + jsval list) \<times> io" where
  \<comment> \<open>the \<^verbatim>\<open>for\<close> loop over the branches still to try, and the \<^verbatim>\<open>throw\<close> after it\<close>
  "forBranches remote owner repo branches [] s = (Inl (NotFound branches), s)"
| "forBranches remote owner repo branches (branch # rest) s =
     (case tryBlock remote (treeUrl owner repo branch) s of
        (Returned files, s') \<Rightarrow> (Inr files, s')
      | (FellThrough, s') \<Rightarrow> forBranches remote owner repo branches rest s'
      | (Threw e, s') \<Rightarrow>
          if str_includes (message e) ''rate limit'' then (Inl e, s')
          else forBranches remote owner repo branches rest
                 (if branch = last branches
                  then s'\<lparr>console := console s' @ [ConsoleError ''Error fetching repo tree:'' e]\<rparr>
                  else s'))"

definition branches :: "string list" where
  "branches = [''main'', ''master'']"

definition fetchRepoFileTree ::
  "remote \<Rightarrow> string \<Rightarrow> string \<Rightarrow> io \<Rightarrow> (js_error + jsval list) \<times> io" where
  "fetchRepoFileTree remote owner repo s = forBranches remote owner repo branches branches s"

section \<open>The caller's parser\<close>

record url =
  hostname :: string
  pathname :: string

record repo_ref =
  owner :: string
  repo :: string

definition stripSlash :: "string \<Rightarrow> string" where
  \<comment> \<open>\<^verbatim>\<open>s.replace(/\/$/, '')\<close>: one final slash is removed\<close>
  "stripSlash s = (if s \<noteq> [] \<and> last s = CHR ''/'' then butlast s else s)"

definition parseRepoInput :: "(string \<Rightarrow> url option) \<Rightarrow> string \<Rightarrow> repo_ref option" where
  \<comment> \<open>\<open>newURL\<close> is the platform's \<^verbatim>\<open>new URL(...)\<close>, \<open>None\<close> when it throws\<close>
  "parseRepoInput newURL input =
     (let cleanInput = stripSlash (trim input);
          fromUrl =
            (case newURL cleanInput of
               None \<Rightarrow> None
             | Some u \<Rightarrow>
                 if hostname u = ''github.com'' then
                   (let parts = filter (\<lambda>p. p \<noteq> []) (split_str CHR ''/'' (pathname u)) in
                    if length parts \<ge> 2
                    then Some \<lparr>owner = parts ! 0, repo = parts ! 1\<rparr>
                    else None)
                 else None)
      in case fromUrl of
           Some r \<Rightarrow> Some r
         | None \<Rightarrow>
             (let parts = split_str CHR ''/'' cleanInput in
              if length parts = 2 \<and> parts ! 0 \<noteq> [] \<and> parts ! 1 \<noteq> []
              then Some \<lparr>owner = parts ! 0, repo = parts ! 1\<rparr>
              else None))"

section \<open>Vocabulary of the properties\<close>

text \<open>
  A tree entry as the forge sends it and as the interface \<^verbatim>\<open>RepoFileTree\<close> declares
  it: an object whose \<^verbatim>\<open>path\<close> and \<^verbatim>\<open>type\<close> are strings (other properties may
  be present).
\<close>

definition entry :: "string \<Rightarrow> string \<Rightarrow> jsval" where
  "entry p t = JObj [(''path'', JStr p), (''type'', JStr t)]"

fun isEntry :: "jsval \<Rightarrow> bool" where
  "isEntry (JObj kvs) =
     (case (map_of kvs ''path'', map_of kvs ''type'') of
        (Some (JStr p), Some (JStr t)) \<Rightarrow> True
      | _ \<Rightarrow> False)"
| "isEntry v = False"

fun entryPath :: "jsval \<Rightarrow> string" where
  "entryPath (JObj kvs) = (case map_of kvs ''path'' of Some (JStr p) \<Rightarrow> p | _ \<Rightarrow> [])"
| "entryPath v = []"

fun entryType :: "jsval \<Rightarrow> string" where
  "entryType (JObj kvs) = (case map_of kvs ''type'' of Some (JStr t) \<Rightarrow> t | _ \<Rightarrow> [])"
| "entryType v = []"

text \<open>
  The filter in the words of the specification, for comparison with \<^const>\<open>keepPath\<close>:
  the directory segments of a path are its components before the last slash, and a path
  is excluded when one of them is a dependency-vendor directory (\<^verbatim>\<open>node_modules\<close>)
  or a compiled-output directory (\<^verbatim>\<open>dist\<close>, \<^verbatim>\<open>build\<close>), or when the path begins
  with a dot.
\<close>

definition dirSegments :: "string \<Rightarrow> string list" where
  "dirSegments path = butlast (split_str CHR ''/'' path)"

definition specKeep :: "jsval \<Rightarrow> bool" where
  "specKeep item =
     (entryType item = ''blob'' \<and>
      matchExt (entryPath item) \<and>
      ''node_modules'' \<notin> set (dirSegments (entryPath item)) \<and>
      ''dist'' \<notin> set (dirSegments (entryPath item)) \<and>
      ''build'' \<notin> set (dirSegments (entryPath item)) \<and>
      \<not> startsWith (entryPath item) ''.'')"

text \<open>
  An answer to a candidate's request that is neither a successful tree response nor a
  rate limit: a status that is not ok and not 403 or 429 (404 among them), a network
  failure or a body that does not parse, where the failure's message does not read as
  a rate limit, or a parsed body that is not a tree listing, so that filtering it throws.
\<close>

definition passedOver :: "fetch_result \<Rightarrow> bool" where
  "passedOver r =
     (case r of
        FetchRejected e \<Rightarrow> \<not> str_includes (message e) ''rate limit''
      | Response status body \<Rightarrow>
          if ok status then
            (case body of
               JsonRejected e \<Rightarrow> \<not> str_includes (message e) ''rate limit''
             | Json data \<Rightarrow> (case filterTree data of Inl e \<Rightarrow> True | Inr files \<Rightarrow> False))
          else status \<noteq> 403 \<and> status \<noteq> 429)"

text \<open>Setting the \<^verbatim>\<open>truncated\<close> property of a response's body to a given value.\<close>

fun setTruncated :: "jsval \<Rightarrow> jsval \<Rightarrow> jsval" where
  "setTruncated v (JObj kvs) = JObj ((''truncated'', v) # kvs)"
| "setTruncated v d = d"

fun mapBody :: "(jsval \<Rightarrow> jsval) \<Rightarrow> fetch_result \<Rightarrow> fetch_result" where
  "mapBody f (Response status (Json data)) = Response status (Json (f data))"
| "mapBody f r = r"

text \<open>Inputs for the examples.\<close>

definition s0 :: io where
  "s0 = \<lparr>requests = [], console = []\<rparr>"

definition exampleTree :: "jsval list" where
  "exampleTree =
     [entry ''src/index.ts'' ''blob'', entry ''node_modules/x/y.js'' ''blob'',
      entry ''dist/bundle.js'' ''blob'', entry ''.env'' ''blob'', entry ''src/'' ''tree'',
      entry ''README.md'' ''blob'']"

definition treeBody :: "jsval list \<Rightarrow> json_result" where
  "treeBody items = Json (JObj [(''tree'', JArr items)])"

definition notFoundBody :: json_result where
  "notFoundBody = Json (JObj [(''message'', JStr ''Not Found'')])"

definition serve :: "(string \<times> fetch_result) list \<Rightarrow> remote" where
  \<comment> \<open>the remote that answers each branch of \<^verbatim>\<open>octo/demo\<close> as listed, and 404 otherwise\<close>
  "serve answers url =
     (case map_of (map (\<lambda>(b, r). (treeUrl ''octo'' ''demo'' b, r)) answers) url of
        Some r \<Rightarrow> r
      | None \<Rightarrow> Response 404 notFoundBody)"

text \<open>
  The error with which \<^verbatim>\<open>response.json()\<close> rejects in V8 when the body is the text
  \<^verbatim>\<open>rate limit\<close>: the message quotes the offending token and the beginning of the
  body.
\<close>

definition quotedBodyError :: js_error where
  "quotedBodyError = Thrown ''SyntaxError''
     (''Unexpected token '' @ [CHR 0x27, CHR ''r'', CHR 0x27] @ '', '' @ [CHR 0x22]
      @ ''rate limit'' @ [CHR 0x22] @ '' is not valid JSON'')"

section \<open>Lemmas about the strings, the filter and the loop\<close>

lemma startsWith_iff: "startsWith s p \<longleftrightarrow> (\<exists>r. s = p @ r)"
proof
  assume "startsWith s p"
  then have "s = p @ drop (length p) s"
    unfolding startsWith_def by (metis append_take_drop_id)
  then show "\<exists>r. s = p @ r" ..
next
  assume "\<exists>r. s = p @ r"
  then show "startsWith s p" unfolding startsWith_def by auto
qed

lemma endsWith_iff: "endsWith s p \<longleftrightarrow> (\<exists>r. s = r @ p)"
proof
  assume h: "endsWith s p"
  then have "s = take (length s - length p) s @ p"
    unfolding endsWith_def by (metis append_take_drop_id)
  then show "\<exists>r. s = r @ p" ..
next
  assume "\<exists>r. s = r @ p"
  then show "endsWith s p" unfolding endsWith_def by auto
qed

lemma str_includes_iff: "str_includes s t \<longleftrightarrow> (\<exists>ps ss. s = ps @ t @ ss)"
proof (induction s)
  case Nil
  then show ?case by simp
next
  case (Cons c cs)
  show ?case
  proof
    assume "str_includes (c # cs) t"
    then consider "startsWith (c # cs) t" | "str_includes cs t" by auto
    then show "\<exists>ps ss. c # cs = ps @ t @ ss"
    proof cases
      case 1
      then obtain r where "c # cs = t @ r" using startsWith_iff by blast
      then have "c # cs = [] @ t @ r" by simp
      then show ?thesis by blast
    next
      case 2
      then obtain ps ss where "cs = ps @ t @ ss" using Cons.IH by blast
      then have "c # cs = (c # ps) @ t @ ss" by simp
      then show ?thesis by blast
    qed
  next
    assume "\<exists>ps ss. c # cs = ps @ t @ ss"
    then obtain ps ss where eq: "c # cs = ps @ t @ ss" by blast
    show "str_includes (c # cs) t"
    proof (cases ps)
      case Nil
      with eq have "startsWith (c # cs) t" using startsWith_iff by auto
      then show ?thesis by simp
    next
      case (Cons p ps')
      with eq have "cs = ps' @ t @ ss" by simp
      then have "str_includes cs t" using Cons.IH by blast
      then show ?thesis by simp
    qed
  qed
qed

lemma treeUrl_inj: "treeUrl own rep b = treeUrl own rep b' \<longleftrightarrow> b = b'"
  by (simp add: treeUrl_def)

lemma rate_limit_message: "str_includes (message RateLimited) ''rate limit''"
  by (simp add: RateLimited_def startsWith_def)

lemma not_found_message:
  "str_includes (message (NotFound [''main'', ''master''])) ''main'' \<and>
   str_includes (message (NotFound [''main'', ''master''])) ''master''"
  by (simp add: NotFound_def startsWith_def)

lemma tryBlock_requests: "requests (snd (tryBlock remote url s)) = requests s @ [url]"
  by (simp add: tryBlock_def Let_def split: fetch_result.splits json_result.splits sum.splits)

lemma tryBlock_fst_cong:
  "remote1 url = remote2 url \<Longrightarrow> fst (tryBlock remote1 url s1) = fst (tryBlock remote2 url s2)"
  by (simp add: tryBlock_def Let_def split: fetch_result.splits json_result.splits sum.splits)

lemma forBranches_sim:
  assumes "\<And>b t1 t2. b \<in> set rest \<Longrightarrow>
             fst (tryBlock r1 (treeUrl own rep b) t1) = fst (tryBlock r2 (treeUrl own rep b) t2)"
  shows "fst (forBranches r1 own rep bs rest s1) = fst (forBranches r2 own rep bs rest s2) \<and>
         (requests s1 = requests s2 \<longrightarrow>
            requests (snd (forBranches r1 own rep bs rest s1))
              = requests (snd (forBranches r2 own rep bs rest s2)))"
  using assms
proof (induction rest arbitrary: s1 s2)
  case Nil
  then show ?case by simp
next
  case (Cons b rest)
  obtain c1 t1 where e1: "tryBlock r1 (treeUrl own rep b) s1 = (c1, t1)" by (cases "tryBlock r1 (treeUrl own rep b) s1")
  obtain c2 t2 where e2: "tryBlock r2 (treeUrl own rep b) s2 = (c2, t2)" by (cases "tryBlock r2 (treeUrl own rep b) s2")
  have c: "c1 = c2" using Cons.prems [of b s1 s2] e1 e2 by simp
  have q1: "requests t1 = requests s1 @ [treeUrl own rep b]" using tryBlock_requests [of r1 "treeUrl own rep b" s1] e1 by simp
  have q2: "requests t2 = requests s2 @ [treeUrl own rep b]" using tryBlock_requests [of r2 "treeUrl own rep b" s2] e2 by simp
  have ih: "\<And>u1 u2. fst (forBranches r1 own rep bs rest u1) = fst (forBranches r2 own rep bs rest u2) \<and>
         (requests u1 = requests u2 \<longrightarrow>
            requests (snd (forBranches r1 own rep bs rest u1))
              = requests (snd (forBranches r2 own rep bs rest u2)))"
    using Cons.IH Cons.prems by simp
  show ?case
  proof (cases c1)
    case (Returned files)
    then show ?thesis using e1 e2 c q1 q2 by simp
  next
    case FellThrough
    then show ?thesis using e1 e2 c q1 q2 ih [of t1 t2] by simp
  next
    case (Threw e)
    show ?thesis
    proof (cases "str_includes (message e) ''rate limit''")
      case True
      then show ?thesis using Threw e1 e2 c q1 q2 by simp
    next
      case False
      let ?u1 = "if b = last bs then t1\<lparr>console := console t1 @ [ConsoleError ''Error fetching repo tree:'' e]\<rparr> else t1"
      let ?u2 = "if b = last bs then t2\<lparr>console := console t2 @ [ConsoleError ''Error fetching repo tree:'' e]\<rparr> else t2"
      have "requests ?u1 = requests t1" "requests ?u2 = requests t2" by simp_all
      then show ?thesis using False Threw e1 e2 c q1 q2 ih [of ?u1 ?u2] by simp
    qed
  qed
qed

lemma getProp_error: "getProp v k = Inl e \<Longrightarrow> e = TypeError k"
  by (cases v) auto

lemma keepItem_error:
  "keepItem item = Inl e \<Longrightarrow>
     e = TypeError ''type'' \<or> e = TypeError ''path'' \<or> e = TypeError ''item.path.match''"
  by (auto simp: keepItem_def split: sum.splits if_splits jsval.splits dest: getProp_error)

lemma TypeError_quiet:
  "\<not> str_includes (message (TypeError ''truncated'')) ''rate limit''"
  "\<not> str_includes (message (TypeError ''tree'')) ''rate limit''"
  "\<not> str_includes (message (TypeError ''(data.tree || []).filter'')) ''rate limit''"
  "\<not> str_includes (message (TypeError ''type'')) ''rate limit''"
  "\<not> str_includes (message (TypeError ''path'')) ''rate limit''"
  "\<not> str_includes (message (TypeError ''item.path.match'')) ''rate limit''"
  by (simp_all add: TypeError_def startsWith_def)

lemma keepItem_quiet:
  assumes "keepItem item = Inl e"
  shows "\<not> str_includes (message e) ''rate limit''"
proof -
  consider "e = TypeError ''type''" | "e = TypeError ''path''" | "e = TypeError ''item.path.match''"
    using keepItem_error [OF assms] by fastforce
  then show ?thesis
    by cases (simp_all only: TypeError_quiet not_False_eq_True)
qed

lemma filterE_error: "filterE p xs = Inl e \<Longrightarrow> \<exists>x \<in> set xs. p x = Inl e"
  by (induction xs) (auto split: sum.splits)

lemma filterTree_quiet:
  assumes "filterTree data = Inl e"
  shows "\<not> str_includes (message e) ''rate limit''"
proof (cases "getProp data ''tree''")
  case (Inl e')
  then have "e = TypeError ''tree''"
    using assms getProp_error [OF Inl] by (simp add: filterTree_def)
  then show ?thesis by (simp only: TypeError_quiet not_False_eq_True)
next
  case (Inr t)
  show ?thesis
  proof (cases "if truthy t then t else JArr []")
    case (JArr items)
    then have "filterE keepItem items = Inl e" using assms Inr by (simp add: filterTree_def)
    then obtain x where "keepItem x = Inl e" using filterE_error by blast
    then show ?thesis by (rule keepItem_quiet)
  qed (use assms Inr TypeError_quiet(3) in \<open>auto simp: filterTree_def\<close>)
qed

lemma tryBlock_passedOver:
  assumes "passedOver (remote url)"
  shows "\<exists>s'. requests s' = requests s @ [url] \<and>
           (tryBlock remote url s = (FellThrough, s')
            \<or> (\<exists>e. tryBlock remote url s = (Threw e, s') \<and> \<not> str_includes (message e) ''rate limit''))"
proof (cases "remote url")
  case (FetchRejected e)
  then show ?thesis using assms by (simp add: passedOver_def tryBlock_def)
next
  case (Response status body)
  show ?thesis
  proof (cases "ok status")
    case False
    then show ?thesis using assms Response by (simp add: passedOver_def tryBlock_def)
  next
    case True
    show ?thesis
    proof (cases body)
      case (JsonRejected e)
      then show ?thesis using assms Response True by (simp add: passedOver_def tryBlock_def)
    next
      case (Json data)
      then obtain e where e: "filterTree data = Inl e"
        using assms Response True by (auto simp: passedOver_def split: sum.splits)
      have ne: "\<not> str_includes (message e) ''rate limit''"
        using e by (rule filterTree_quiet)
      show ?thesis
      proof (cases "getProp data ''truncated''")
        case (Inl e')
        then have "e' = TypeError ''truncated''" by (rule getProp_error)
        then have "\<not> str_includes (message e') ''rate limit''"
          by (simp only: TypeError_quiet not_False_eq_True)
        then show ?thesis using Response True Json Inl by (simp add: tryBlock_def)
      next
        case (Inr tr)
        then show ?thesis using Response True Json e ne by (simp add: tryBlock_def Let_def)
      qed
    qed
  qed
qed

lemma forBranches_passedOver:
  assumes "passedOver (remote (treeUrl own rep b))"
  shows "\<exists>s'. forBranches remote own rep bs (b # rest) s = forBranches remote own rep bs rest s'
            \<and> requests s' = requests s @ [treeUrl own rep b]"
proof -
  obtain s' where r: "requests s' = requests s @ [treeUrl own rep b]"
    and t: "tryBlock remote (treeUrl own rep b) s = (FellThrough, s')
            \<or> (\<exists>e. tryBlock remote (treeUrl own rep b) s = (Threw e, s')
                  \<and> \<not> str_includes (message e) ''rate limit'')"
    using tryBlock_passedOver [where remote = remote and url = "treeUrl own rep b" and s = s] assms
    by blast
  from t show ?thesis
  proof
    assume "tryBlock remote (treeUrl own rep b) s = (FellThrough, s')"
    then show ?thesis using r by auto
  next
    assume "\<exists>e. tryBlock remote (treeUrl own rep b) s = (Threw e, s')
                  \<and> \<not> str_includes (message e) ''rate limit''"
    then obtain e where e: "tryBlock remote (treeUrl own rep b) s = (Threw e, s')"
      and ne: "\<not> str_includes (message e) ''rate limit''" by blast
    let ?u = "if b = last bs
              then s'\<lparr>console := console s' @ [ConsoleError ''Error fetching repo tree:'' e]\<rparr>
              else s'"
    have "forBranches remote own rep bs (b # rest) s = forBranches remote own rep bs rest ?u"
      using e ne by simp
    moreover have "requests ?u = requests s @ [treeUrl own rep b]" using r by simp
    ultimately show ?thesis by blast
  qed
qed

lemma forBranches_returns:
  assumes "remote (treeUrl own rep b) = Response status (Json data)" and "ok status"
    and "filterTree data = Inr files"
  shows "fst (forBranches remote own rep bs (b # rest) s) = Inr files \<and>
         requests (snd (forBranches remote own rep bs (b # rest) s)) = requests s @ [treeUrl own rep b]"
proof -
  have "getProp data ''tree'' \<noteq> Inl (TypeError ''tree'')"
    using assms(3) by (auto simp: filterTree_def)
  then have "\<exists>tr. getProp data ''truncated'' = Inr tr"
    by (cases data) simp_all
  then show ?thesis using assms
    by (auto simp: tryBlock_def Let_def)
qed

lemmas eval_defs =
  fetchRepoFileTree_def branches_def tryBlock_def serve_def treeUrl_def ok_def s0_def
  treeBody_def filterTree_def keepItem_def keepPath_def matchExt_def extensions_def
  endsWith_def startsWith_def toLower_def truthy_def entry_def exampleTree_def
  quotedBodyError_def notFoundBody_def RateLimited_def NotFound_def passedOver_def

lemma keepPath_iff:
  "keepPath path \<longleftrightarrow>
     (\<exists>ext \<in> set extensions. \<exists>stem. map toLower path = stem @ ''.'' @ ext) \<and>
     (\<nexists>ps ss. path = ps @ ''node_modules'' @ ss) \<and>
     (\<nexists>ps ss. path = ps @ ''dist/'' @ ss) \<and>
     (\<nexists>ps ss. path = ps @ ''build/'' @ ss) \<and>
     (\<nexists>rest. path = ''.'' @ rest)"
  unfolding keepPath_def matchExt_def list_ex_iff str_includes_iff startsWith_iff endsWith_iff
  by simp

lemma keepItem_entry:
  "isEntry item \<Longrightarrow> keepItem item = Inr (entryType item = ''blob'' \<and> keepPath (entryPath item))"
  by (cases item) (auto simp: keepItem_def split: option.splits jsval.splits)

lemma filterE_entries:
  "list_all isEntry items \<Longrightarrow>
     filterE keepItem items
       = Inr (filter (\<lambda>item. entryType item = ''blob'' \<and> keepPath (entryPath item)) items)"
  by (induction items) (simp_all add: keepItem_entry)

lemma filterTree_entries:
  assumes "map_of kvs ''tree'' = Some (JArr items)" and "list_all isEntry items"
  shows "filterTree (JObj kvs)
           = Inr (filter (\<lambda>item. entryType item = ''blob'' \<and> keepPath (entryPath item)) items)"
  using assms by (simp add: filterTree_def truthy_def filterE_entries)

lemma forBranches_candidate:
  assumes "remote (treeUrl own rep ''main'') = Response status (Json data)
           \<or> (passedOver (remote (treeUrl own rep ''main''))
              \<and> remote (treeUrl own rep ''master'') = Response status (Json data))"
    and "ok status" and "filterTree data = Inr files"
  shows "fst (fetchRepoFileTree remote own rep s) = Inr files"
  using assms(1)
proof
  assume "remote (treeUrl own rep ''main'') = Response status (Json data)"
  then show ?thesis
    using forBranches_returns [where remote = remote and own = own and rep = rep
        and b = "''main''" and bs = branches and rest = "[''master'']" and s = s
        and status = status and data = data and files = files] assms(2,3)
    by (simp add: fetchRepoFileTree_def branches_def)
next
  assume a: "passedOver (remote (treeUrl own rep ''main''))
              \<and> remote (treeUrl own rep ''master'') = Response status (Json data)"
  obtain s1 where s1: "forBranches remote own rep branches [''main'', ''master''] s
                         = forBranches remote own rep branches [''master''] s1"
    using forBranches_passedOver [where remote = remote and own = own and rep = rep
        and b = "''main''" and bs = branches and rest = "[''master'']" and s = s] a
    by auto
  show ?thesis
    using forBranches_returns [where remote = remote and own = own and rep = rep
        and b = "''master''" and bs = branches and rest = "[]" and s = s1
        and status = status and data = data and files = files] a assms(2,3) s1
    by (simp add: fetchRepoFileTree_def branches_def)
qed

lemma tryBlock_setTruncated:
  "fst (tryBlock (\<lambda>u. mapBody (setTruncated v) (remote u)) url t1) = fst (tryBlock remote url t2)"
proof (cases "remote url")
  case (FetchRejected e)
  then show ?thesis by (simp add: tryBlock_def)
next
  case (Response status body)
  show ?thesis
  proof (cases body)
    case (JsonRejected e)
    then show ?thesis using Response by (simp add: tryBlock_def Let_def)
  next
    case (Json data)
    have "filterTree (setTruncated v data) = filterTree data"
      by (cases data) (simp_all add: filterTree_def)
    moreover have "(\<exists>e. getProp (setTruncated v data) ''truncated'' = Inl e \<and> getProp data ''truncated'' = Inl e)
        \<or> (\<exists>a b. getProp (setTruncated v data) ''truncated'' = Inr a \<and> getProp data ''truncated'' = Inr b)"
      by (cases data) simp_all
    ultimately show ?thesis using Response Json
      by (auto simp: tryBlock_def Let_def split: sum.splits)
  qed
qed

section \<open>The claims\<close>

text \<open>
  Claim C1. When the answer to the request for \<^verbatim>\<open>main\<close> has status 403 or 429,
  the call fails with the rate-limit error, and the only request that it has issued is
  the one for \<^verbatim>\<open>main\<close>: none for \<^verbatim>\<open>master\<close>, whose URL is a different one.
\<close>

theorem rate_limit_aborts:
  assumes "remote (treeUrl own rep ''main'') = Response status body"
    and "status = 403 \<or> status = 429"
  shows "fetchRepoFileTree remote own rep s
           = (Inl RateLimited, s\<lparr>requests := requests s @ [treeUrl own rep ''main'']\<rparr>)
         \<and> treeUrl own rep ''master'' \<noteq> treeUrl own rep ''main''"
proof -
  have "\<not> ok status" using assms(2) by (auto simp: ok_def)
  then have "tryBlock remote (treeUrl own rep ''main'') s
               = (Threw RateLimited, s\<lparr>requests := requests s @ [treeUrl own rep ''main'']\<rparr>)"
    using assms by (simp add: tryBlock_def Let_def)
  then show ?thesis
    using rate_limit_message by (simp add: fetchRepoFileTree_def branches_def treeUrl_inj)
qed

theorem rate_limit_aborts_witness:
  "serve [(''main'', Response 429 notFoundBody), (''master'', Response 200 (treeBody exampleTree))]
     (treeUrl ''octo'' ''demo'' ''main'') = Response 429 notFoundBody
   \<and> ((429::nat) = 403 \<or> (429::nat) = 429)
   \<and> fetchRepoFileTree
        (serve [(''main'', Response 429 notFoundBody), (''master'', Response 200 (treeBody exampleTree))])
        ''octo'' ''demo'' s0
       = (Inl RateLimited, \<lparr>requests = [treeUrl ''octo'' ''demo'' ''main''], console = []\<rparr>)"
  using rate_limit_aborts [of "serve [(''main'', Response 429 notFoundBody), (''master'', Response 200 (treeBody exampleTree))]"
      "''octo''" "''demo''" 429 notFoundBody s0]
  by (simp add: serve_def s0_def)

text \<open>
  Claim C2, as amended. For a successful response of a candidate whose \<^verbatim>\<open>tree\<close>
  is a list of entries, the returned list keeps, in the order of the response, exactly
  the entries whose type is \<^verbatim>\<open>blob\<close>, whose path ends, letter case aside, with a
  dot and a recognized extension, whose path contains none of the texts
  \<^verbatim>\<open>node_modules\<close>, \<^verbatim>\<open>dist/\<close> and \<^verbatim>\<open>build/\<close> anywhere, and whose path does
  not begin with a dot. For the raw tree of the example the result is the entry
  \<^verbatim>\<open>src/index.ts\<close> alone. The exclusion is by text, not by directory segment: the
  counterexample that follows the witness is a file under a directory \<^verbatim>\<open>redist\<close>,
  none of whose directory segments is \<^verbatim>\<open>node_modules\<close>, \<^verbatim>\<open>dist\<close> or
  \<^verbatim>\<open>build\<close>, and which is dropped.
\<close>

theorem filter_by_substring:
  assumes "remote (treeUrl own rep ''main'') = Response status (Json (JObj kvs))
           \<or> (passedOver (remote (treeUrl own rep ''main''))
              \<and> remote (treeUrl own rep ''master'') = Response status (Json (JObj kvs)))"
    and "ok status"
    and "map_of kvs ''tree'' = Some (JArr items)"
    and "list_all isEntry items"
  shows "fst (fetchRepoFileTree remote own rep s)
           = Inr (filter
                   (\<lambda>item. entryType item = ''blob''
                      \<and> (\<exists>ext \<in> set extensions. \<exists>stem.
                            map toLower (entryPath item) = stem @ ''.'' @ ext)
                      \<and> (\<nexists>ps ss. entryPath item = ps @ ''node_modules'' @ ss)
                      \<and> (\<nexists>ps ss. entryPath item = ps @ ''dist/'' @ ss)
                      \<and> (\<nexists>ps ss. entryPath item = ps @ ''build/'' @ ss)
                      \<and> (\<nexists>rest. entryPath item = ''.'' @ rest))
                   items)
         \<and> fst (fetchRepoFileTree (serve [(''main'', Response 200 (treeBody exampleTree))])
                  ''octo'' ''demo'' s0)
             = Inr [entry ''src/index.ts'' ''blob'']"
proof -
  have "filterTree (JObj kvs)
          = Inr (filter (\<lambda>item. entryType item = ''blob'' \<and> keepPath (entryPath item)) items)"
    using assms(3,4) by (rule filterTree_entries)
  then have "fst (fetchRepoFileTree remote own rep s)
          = Inr (filter (\<lambda>item. entryType item = ''blob'' \<and> keepPath (entryPath item)) items)"
    using forBranches_candidate [where remote = remote and own = own and rep = rep
        and status = status and data = "JObj kvs" and s = s] assms(1,2)
    by simp
  moreover have "fst (fetchRepoFileTree (serve [(''main'', Response 200 (treeBody exampleTree))])
                  ''octo'' ''demo'' s0)
             = Inr [entry ''src/index.ts'' ''blob'']"
    by (simp add: eval_defs)
  ultimately show ?thesis
    unfolding keepPath_iff by simp
qed

theorem filter_by_substring_witness:
  "serve [(''main'', Response 200 (treeBody exampleTree))] (treeUrl ''octo'' ''demo'' ''main'')
     = Response 200 (Json (JObj [(''tree'', JArr exampleTree)]))
   \<and> ok 200
   \<and> map_of [(''tree'', JArr exampleTree)] ''tree'' = Some (JArr exampleTree)
   \<and> list_all isEntry exampleTree
   \<and> fst (fetchRepoFileTree (serve [(''main'', Response 200 (treeBody exampleTree))]) ''octo'' ''demo'' s0)
       = Inr (filter
                   (\<lambda>item. entryType item = ''blob''
                      \<and> (\<exists>ext \<in> set extensions. \<exists>stem.
                            map toLower (entryPath item) = stem @ ''.'' @ ext)
                      \<and> (\<nexists>ps ss. entryPath item = ps @ ''node_modules'' @ ss)
                      \<and> (\<nexists>ps ss. entryPath item = ps @ ''dist/'' @ ss)
                      \<and> (\<nexists>ps ss. entryPath item = ps @ ''build/'' @ ss)
                      \<and> (\<nexists>rest. entryPath item = ''.'' @ rest))
                   exampleTree)"
proof -
  let ?r = "serve [(''main'', Response 200 (treeBody exampleTree))]"
  have h1: "?r (treeUrl ''octo'' ''demo'' ''main'') = Response 200 (Json (JObj [(''tree'', JArr exampleTree)]))"
    by (simp add: serve_def treeUrl_def treeBody_def)
  have h2: "ok 200" by (simp add: ok_def)
  have h3: "map_of [(''tree'', JArr exampleTree)] ''tree'' = Some (JArr exampleTree)" by simp
  have h4: "list_all isEntry exampleTree" by (simp add: exampleTree_def entry_def)
  show ?thesis
    using h1 h2 h3 h4
      filter_by_substring [where remote = ?r and own = "''octo''" and rep = "''demo''"
        and status = 200 and kvs = "[(''tree'', JArr exampleTree)]" and items = exampleTree
        and s = s0]
    by simp
qed

theorem segment_reading_counterexample:
  "specKeep (entry ''src/redist/a.ts'' ''blob'')
   \<and> fst (fetchRepoFileTree
            (serve [(''main'', Response 200 (treeBody [entry ''src/redist/a.ts'' ''blob'']))])
            ''octo'' ''demo'' s0)
       = Inr []"
proof -
  have "specKeep (entry ''src/redist/a.ts'' ''blob'')"
    by (simp add: specKeep_def dirSegments_def entry_def matchExt_def extensions_def
        endsWith_def startsWith_def toLower_def)
  moreover have "fst (fetchRepoFileTree
            (serve [(''main'', Response 200 (treeBody [entry ''src/redist/a.ts'' ''blob'']))])
            ''octo'' ''demo'' s0) = Inr []"
    by (simp add: eval_defs)
  ultimately show ?thesis by simp
qed

text \<open>
  Claim C3. When every candidate branch is passed over without a successful response
  (a 404 for both, for instance), the call fails with the not-found error, after a
  request for each, and the message of that error contains both \<^verbatim>\<open>main\<close> and
  \<^verbatim>\<open>master\<close>.
\<close>

theorem exhausted_not_found:
  assumes "\<forall>b \<in> set branches. passedOver (remote (treeUrl own rep b))"
  shows "fst (fetchRepoFileTree remote own rep s) = Inl (NotFound branches)
         \<and> str_includes (message (NotFound branches)) ''main''
         \<and> str_includes (message (NotFound branches)) ''master''
         \<and> requests (snd (fetchRepoFileTree remote own rep s))
             = requests s @ [treeUrl own rep ''main'', treeUrl own rep ''master'']"
proof -
  have p1: "passedOver (remote (treeUrl own rep ''main''))"
    and p2: "passedOver (remote (treeUrl own rep ''master''))"
    using assms by (simp_all add: branches_def)
  obtain s1 where s1: "forBranches remote own rep branches [''main'', ''master''] s
                         = forBranches remote own rep branches [''master''] s1"
    and r1: "requests s1 = requests s @ [treeUrl own rep ''main'']"
    using forBranches_passedOver [where remote = remote and own = own and rep = rep
        and b = "''main''" and bs = branches and rest = "[''master'']" and s = s] p1
    by auto
  obtain s2 where s2: "forBranches remote own rep branches [''master''] s1
                         = forBranches remote own rep branches [] s2"
    and r2: "requests s2 = requests s1 @ [treeUrl own rep ''master'']"
    using forBranches_passedOver [where remote = remote and own = own and rep = rep
        and b = "''master''" and bs = branches and rest = "[]" and s = s1] p2
    by auto
  have "fetchRepoFileTree remote own rep s = (Inl (NotFound branches), s2)"
    using s1 s2 by (simp add: fetchRepoFileTree_def branches_def)
  then show ?thesis
    using r1 r2 not_found_message by (simp add: branches_def)
qed

theorem exhausted_not_found_witness:
  "passedOver (serve [] (treeUrl ''octo'' ''demo'' ''main''))
   \<and> passedOver (serve [] (treeUrl ''octo'' ''demo'' ''master''))
   \<and> fst (fetchRepoFileTree (serve []) ''octo'' ''demo'' s0) = Inl (NotFound branches)
   \<and> str_includes (message (NotFound branches)) ''main''
   \<and> str_includes (message (NotFound branches)) ''master''
   \<and> requests (snd (fetchRepoFileTree (serve []) ''octo'' ''demo'' s0))
       = [treeUrl ''octo'' ''demo'' ''main'', treeUrl ''octo'' ''demo'' ''master'']"
proof -
  have h: "\<forall>b \<in> set branches. passedOver (serve [] (treeUrl ''octo'' ''demo'' b))"
    by (simp add: branches_def serve_def passedOver_def ok_def)
  show ?thesis
    using h exhausted_not_found [where remote = "serve []" and own = "''octo''"
        and rep = "''demo''" and s = s0]
    by (simp add: s0_def branches_def)
qed

text \<open>
  Claim C4. When the answer for \<^verbatim>\<open>main\<close> is a 404 and the request for
  \<^verbatim>\<open>master\<close> succeeds with a body that filters without a throw, the call returns
  the filtered list of the \<^verbatim>\<open>master\<close> response.
\<close>

theorem master_after_not_found:
  assumes "remote (treeUrl own rep ''main'') = Response 404 body"
    and "remote (treeUrl own rep ''master'') = Response status (Json data)"
    and "ok status"
    and "filterTree data = Inr files"
  shows "fst (fetchRepoFileTree remote own rep s) = Inr files
         \<and> requests (snd (fetchRepoFileTree remote own rep s))
             = requests s @ [treeUrl own rep ''main'', treeUrl own rep ''master'']"
proof -
  have p1: "passedOver (remote (treeUrl own rep ''main''))"
    using assms(1) by (simp add: passedOver_def ok_def)
  obtain s1 where s1: "forBranches remote own rep branches [''main'', ''master''] s
                         = forBranches remote own rep branches [''master''] s1"
    and r1: "requests s1 = requests s @ [treeUrl own rep ''main'']"
    using forBranches_passedOver [where remote = remote and own = own and rep = rep
        and b = "''main''" and bs = branches and rest = "[''master'']" and s = s] p1
    by auto
  show ?thesis
    using forBranches_returns [where remote = remote and own = own and rep = rep
        and b = "''master''" and bs = branches and rest = "[]" and s = s1
        and status = status and data = data and files = files] assms(2,3,4) s1 r1
    by (simp add: fetchRepoFileTree_def branches_def)
qed

theorem master_after_not_found_witness:
  "serve [(''master'', Response 200 (treeBody exampleTree))] (treeUrl ''octo'' ''demo'' ''main'')
     = Response 404 notFoundBody
   \<and> serve [(''master'', Response 200 (treeBody exampleTree))] (treeUrl ''octo'' ''demo'' ''master'')
     = Response 200 (Json (JObj [(''tree'', JArr exampleTree)]))
   \<and> ok 200
   \<and> filterTree (JObj [(''tree'', JArr exampleTree)]) = Inr [entry ''src/index.ts'' ''blob'']
   \<and> fst (fetchRepoFileTree (serve [(''master'', Response 200 (treeBody exampleTree))]) ''octo'' ''demo'' s0)
       = Inr [entry ''src/index.ts'' ''blob'']"
proof -
  let ?r = "serve [(''master'', Response 200 (treeBody exampleTree))]"
  have h1: "?r (treeUrl ''octo'' ''demo'' ''main'') = Response 404 notFoundBody"
    by (simp add: serve_def treeUrl_def)
  have h2: "?r (treeUrl ''octo'' ''demo'' ''master'') = Response 200 (Json (JObj [(''tree'', JArr exampleTree)]))"
    by (simp add: serve_def treeUrl_def treeBody_def)
  have h3: "ok 200" by (simp add: ok_def)
  have h4: "filterTree (JObj [(''tree'', JArr exampleTree)]) = Inr [entry ''src/index.ts'' ''blob'']"
    by (simp add: eval_defs)
  show ?thesis
    using h1 h2 h3 h4
      master_after_not_found [where remote = ?r and own = "''octo''" and rep = "''demo''"
        and body = notFoundBody and status = 200
        and data = "JObj [(''tree'', JArr exampleTree)]"
        and files = "[entry ''src/index.ts'' ''blob'']" and s = s0]
    by simp
qed

text \<open>
  Claim C5. When the request for \<^verbatim>\<open>main\<close> succeeds with a body that filters
  without a throw, the call returns the filtered list of that response, whatever it is
  (the empty list included), and has issued the request for \<^verbatim>\<open>main\<close> only.
\<close>

theorem main_success_returns:
  assumes "remote (treeUrl own rep ''main'') = Response status (Json data)"
    and "ok status"
    and "filterTree data = Inr files"
  shows "fst (fetchRepoFileTree remote own rep s) = Inr files
         \<and> requests (snd (fetchRepoFileTree remote own rep s)) = requests s @ [treeUrl own rep ''main'']
         \<and> treeUrl own rep ''master'' \<noteq> treeUrl own rep ''main''"
  using forBranches_returns [where remote = remote and own = own and rep = rep
      and b = "''main''" and bs = branches and rest = "[''master'']" and s = s
      and status = status and data = data and files = files] assms
  by (simp add: fetchRepoFileTree_def branches_def treeUrl_inj)

theorem main_success_returns_witness:
  "serve [(''main'', Response 200 (treeBody [entry ''README.md'' ''blob'']))] (treeUrl ''octo'' ''demo'' ''main'')
     = Response 200 (Json (JObj [(''tree'', JArr [entry ''README.md'' ''blob''])]))
   \<and> ok 200
   \<and> filterTree (JObj [(''tree'', JArr [entry ''README.md'' ''blob''])]) = Inr []
   \<and> fst (fetchRepoFileTree (serve [(''main'', Response 200 (treeBody [entry ''README.md'' ''blob'']))]) ''octo'' ''demo'' s0)
       = Inr []
   \<and> requests (snd (fetchRepoFileTree (serve [(''main'', Response 200 (treeBody [entry ''README.md'' ''blob'']))]) ''octo'' ''demo'' s0))
       = [treeUrl ''octo'' ''demo'' ''main'']"
proof -
  let ?r = "serve [(''main'', Response 200 (treeBody [entry ''README.md'' ''blob'']))]"
  have h1: "?r (treeUrl ''octo'' ''demo'' ''main'') = Response 200 (Json (JObj [(''tree'', JArr [entry ''README.md'' ''blob''])]))"
    by (simp add: serve_def treeUrl_def treeBody_def)
  have h2: "ok 200" by (simp add: ok_def)
  have h3: "filterTree (JObj [(''tree'', JArr [entry ''README.md'' ''blob''])]) = Inr []"
    by (simp add: eval_defs)
  show ?thesis
    using h1 h2 h3
      main_success_returns [where remote = ?r and own = "''octo''" and rep = "''demo''"
        and status = 200 and data = "JObj [(''tree'', JArr [entry ''README.md'' ''blob''])]"
        and files = "[]" and s = s0]
    by (simp add: s0_def)
qed

text \<open>
  Claim C6 says that a malformed response to a candidate that is not the last one is
  never surfaced. Here the answer for \<^verbatim>\<open>main\<close> is a 200 whose body is the text
  \<^verbatim>\<open>rate limit\<close>, not JSON, and \<^verbatim>\<open>master\<close> would succeed: the parse error,
  whose message quotes the body, is taken for the rate-limit error by the
  \<^verbatim>\<open>catch\<close> block and thrown to the caller, and \<^verbatim>\<open>master\<close> is never requested.
  The lemma after it states what the code does for the other transient errors: those
  whose message does not contain \<^verbatim>\<open>rate limit\<close> are swallowed and the loop goes on
  with \<^verbatim>\<open>master\<close>.
\<close>

theorem quoted_body_error_surfaces:
  "fetchRepoFileTree
     (serve [(''main'', Response 200 (JsonRejected quotedBodyError)),
             (''master'', Response 200 (treeBody exampleTree))])
     ''octo'' ''demo'' s0
   = (Inl quotedBodyError, \<lparr>requests = [treeUrl ''octo'' ''demo'' ''main''], console = []\<rparr>)"
  by (simp add: eval_defs)

lemma transient_error_swallowed:
  assumes "remote (treeUrl own rep ''main'') = FetchRejected e
           \<or> (\<exists>status. ok status \<and> remote (treeUrl own rep ''main'') = Response status (JsonRejected e))"
    and "\<not> str_includes (message e) ''rate limit''"
  shows "fetchRepoFileTree remote own rep s
           = forBranches remote own rep branches [''master'']
               (s\<lparr>requests := requests s @ [treeUrl own rep ''main'']\<rparr>)"
proof -
  have "tryBlock remote (treeUrl own rep ''main'') s
          = (Threw e, s\<lparr>requests := requests s @ [treeUrl own rep ''main'']\<rparr>)"
    using assms(1) by (auto simp: tryBlock_def Let_def)
  then show ?thesis
    using assms(2) by (simp add: fetchRepoFileTree_def branches_def)
qed

text \<open>
  Claim C7. Setting the \<^verbatim>\<open>truncated\<close> flag of the responses to any value changes
  neither the value that the call returns or the error that it throws, nor the requests
  that it issues: the result is the same function of the rest of the response. In the
  witness the flag is set and the list is returned, with a warning on the console.
\<close>

theorem truncated_irrelevant:
  "fst (fetchRepoFileTree (\<lambda>u. mapBody (setTruncated v) (remote u)) own rep s)
     = fst (fetchRepoFileTree remote own rep s)
   \<and> requests (snd (fetchRepoFileTree (\<lambda>u. mapBody (setTruncated v) (remote u)) own rep s))
     = requests (snd (fetchRepoFileTree remote own rep s))"
  using forBranches_sim [where ?r1.0 = "\<lambda>u. mapBody (setTruncated v) (remote u)" and ?r2.0 = remote
      and own = own and rep = rep and rest = branches and bs = branches and ?s1.0 = s and ?s2.0 = s]
    tryBlock_setTruncated [where v = v and remote = remote]
  by (simp add: fetchRepoFileTree_def)

theorem truncated_irrelevant_witness:
  "fetchRepoFileTree
      (\<lambda>u. mapBody (setTruncated (JBool True))
              (serve [(''main'', Response 200 (treeBody exampleTree))] u)) ''octo'' ''demo'' s0
     = (Inr [entry ''src/index.ts'' ''blob''],
        \<lparr>requests = [treeUrl ''octo'' ''demo'' ''main''], console = [truncatedWarning]\<rparr>)
   \<and> fst (fetchRepoFileTree (serve [(''main'', Response 200 (treeBody exampleTree))]) ''octo'' ''demo'' s0)
     = Inr [entry ''src/index.ts'' ''blob'']"
proof -
  have "fetchRepoFileTree
      (\<lambda>u. mapBody (setTruncated (JBool True))
              (serve [(''main'', Response 200 (treeBody exampleTree))] u)) ''octo'' ''demo'' s0
     = (Inr [entry ''src/index.ts'' ''blob''],
        \<lparr>requests = [treeUrl ''octo'' ''demo'' ''main''], console = [truncatedWarning]\<rparr>)"
    by (simp add: eval_defs)
  then show ?thesis
    using truncated_irrelevant [where v = "JBool True"
        and remote = "serve [(''main'', Response 200 (treeBody exampleTree))]"
        and own = "''octo''" and rep = "''demo''" and s = s0]
    by simp
qed

text \<open>
  Claim C8. Two calls for the same owner and repository, against remotes that give the
  same answer for each candidate branch, return the same list (same entries, same order)
  or throw the same error, whatever the state in which each call starts.
\<close>

theorem same_responses_same_result:
  assumes "\<forall>b \<in> set branches. remote1 (treeUrl own rep b) = remote2 (treeUrl own rep b)"
  shows "fst (fetchRepoFileTree remote1 own rep s1) = fst (fetchRepoFileTree remote2 own rep s2)"
proof -
  have "\<And>b t1 t2. b \<in> set branches \<Longrightarrow>
          fst (tryBlock remote1 (treeUrl own rep b) t1) = fst (tryBlock remote2 (treeUrl own rep b) t2)"
    using assms tryBlock_fst_cong by blast
  then show ?thesis
    using forBranches_sim [where ?r1.0 = remote1 and ?r2.0 = remote2 and own = own and rep = rep
        and rest = branches and bs = branches and ?s1.0 = s1 and ?s2.0 = s2]
    by (simp add: fetchRepoFileTree_def)
qed

theorem same_responses_same_result_witness:
  "serve [(''master'', Response 200 (treeBody exampleTree))] (treeUrl ''octo'' ''demo'' ''main'')
     = serve [(''master'', Response 200 (treeBody exampleTree)), (''dev'', Response 403 notFoundBody)]
         (treeUrl ''octo'' ''demo'' ''main'')
   \<and> serve [(''master'', Response 200 (treeBody exampleTree))] (treeUrl ''octo'' ''demo'' ''master'')
     = serve [(''master'', Response 200 (treeBody exampleTree)), (''dev'', Response 403 notFoundBody)]
         (treeUrl ''octo'' ''demo'' ''master'')
   \<and> fst (fetchRepoFileTree (serve [(''master'', Response 200 (treeBody exampleTree))])
            ''octo'' ''demo'' s0)
     = fst (fetchRepoFileTree
              (serve [(''master'', Response 200 (treeBody exampleTree)), (''dev'', Response 403 notFoundBody)])
              ''octo'' ''demo'' (s0\<lparr>requests := [''earlier'']\<rparr>))"
proof -
  let ?r1 = "serve [(''master'', Response 200 (treeBody exampleTree))]"
  let ?r2 = "serve [(''master'', Response 200 (treeBody exampleTree)), (''dev'', Response 403 notFoundBody)]"
  have h1: "?r1 (treeUrl ''octo'' ''demo'' ''main'') = ?r2 (treeUrl ''octo'' ''demo'' ''main'')"
    by (simp add: serve_def treeUrl_def)
  have h2: "?r1 (treeUrl ''octo'' ''demo'' ''master'') = ?r2 (treeUrl ''octo'' ''demo'' ''master'')"
    by (simp add: serve_def treeUrl_def)
  have h: "\<forall>b \<in> set branches. ?r1 (treeUrl ''octo'' ''demo'' b) = ?r2 (treeUrl ''octo'' ''demo'' b)"
    using h1 h2 by (simp add: branches_def)
  show ?thesis
    using h1 h2 h
      same_responses_same_result [where ?remote1.0 = ?r1 and ?remote2.0 = ?r2
        and own = "''octo''" and rep = "''demo''" and ?s1.0 = s0
        and ?s2.0 = "s0\<lparr>requests := [''earlier'']\<rparr>"]
    by blast
qed

text \<open>
  Claim C9. Whenever \<^verbatim>\<open>parseRepoInput\<close> returns a reference, from a bare
  \<^verbatim>\<open>owner/repo\<close> or from a URL on \<^verbatim>\<open>github.com\<close>, its owner and its repo are
  not empty; this holds for every behaviour of the platform's URL parser.
\<close>

theorem parsed_fields_nonempty:
  assumes "parseRepoInput newURL input = Some r"
  shows "owner r \<noteq> [] \<and> repo r \<noteq> []"
proof -
  define cleanInput where "cleanInput = stripSlash (trim input)"
  define bare where "bare = split_str CHR ''/'' cleanInput"
  have nonempty: "\<And>parts :: string list. 2 \<le> length (filter (\<lambda>p. p \<noteq> []) parts) \<Longrightarrow>
           filter (\<lambda>p. p \<noteq> []) parts ! 0 \<noteq> [] \<and> filter (\<lambda>p. p \<noteq> []) parts ! 1 \<noteq> []"
  proof -
    fix parts :: "string list"
    assume len: "2 \<le> length (filter (\<lambda>p. p \<noteq> []) parts)"
    let ?f = "filter (\<lambda>p. p \<noteq> []) parts"
    have "?f ! 0 \<in> set ?f" and "?f ! 1 \<in> set ?f"
      using len nth_mem [of 0 ?f] nth_mem [of 1 ?f] by linarith+
    then show "?f ! 0 \<noteq> [] \<and> ?f ! 1 \<noteq> []" by simp
  qed
  from assms show ?thesis
    unfolding parseRepoInput_def Let_def
    using nonempty
    by (auto split: option.splits if_splits)
qed

theorem parsed_fields_nonempty_witness:
  "parseRepoInput
     (\<lambda>s. if s = ''https://github.com/octo/demo''
           then Some \<lparr>hostname = ''github.com'', pathname = ''/octo/demo''\<rparr> else None)
     '' https://github.com/octo/demo/ ''
     = Some \<lparr>owner = ''octo'', repo = ''demo''\<rparr>
   \<and> owner \<lparr>owner = ''octo'', repo = ''demo''\<rparr> \<noteq> []
   \<and> repo \<lparr>owner = ''octo'', repo = ''demo''\<rparr> \<noteq> []"
proof -
  have h: "parseRepoInput
     (\<lambda>s. if s = ''https://github.com/octo/demo''
           then Some \<lparr>hostname = ''github.com'', pathname = ''/octo/demo''\<rparr> else None)
     '' https://github.com/octo/demo/ ''
     = Some \<lparr>owner = ''octo'', repo = ''demo''\<rparr>"
    by (simp add: parseRepoInput_def stripSlash_def trim_def isWhiteSpace_def)
  show ?thesis
    using h parsed_fields_nonempty [OF h] by simp
qed

text \<open>
  Claim C10. When the request of a candidate succeeds with a JSON object whose
  \<^verbatim>\<open>tree\<close> is missing or null, the call returns the empty list; when that candidate
  is \<^verbatim>\<open>main\<close>, no further request is issued.
\<close>

theorem missing_tree_gives_empty:
  assumes "remote (treeUrl own rep ''main'') = Response status (Json (JObj kvs))
           \<or> (passedOver (remote (treeUrl own rep ''main''))
              \<and> remote (treeUrl own rep ''master'') = Response status (Json (JObj kvs)))"
    and "ok status"
    and "map_of kvs ''tree'' = None \<or> map_of kvs ''tree'' = Some JNull"
  shows "fst (fetchRepoFileTree remote own rep s) = Inr []
         \<and> (remote (treeUrl own rep ''main'') = Response status (Json (JObj kvs)) \<longrightarrow>
              requests (snd (fetchRepoFileTree remote own rep s))
                = requests s @ [treeUrl own rep ''main''])"
proof -
  have f: "filterTree (JObj kvs) = Inr []"
    using assms(3) by (auto simp: filterTree_def truthy_def)
  then have "fst (fetchRepoFileTree remote own rep s) = Inr []"
    using forBranches_candidate [where remote = remote and own = own and rep = rep
        and status = status and data = "JObj kvs" and s = s and files = "[]"] assms(1,2)
    by simp
  moreover have "remote (treeUrl own rep ''main'') = Response status (Json (JObj kvs)) \<longrightarrow>
              requests (snd (fetchRepoFileTree remote own rep s))
                = requests s @ [treeUrl own rep ''main'']"
    using forBranches_returns [where remote = remote and own = own and rep = rep
        and b = "''main''" and bs = branches and rest = "[''master'']" and s = s
        and status = status and data = "JObj kvs" and files = "[]"] assms(2) f
    by (simp add: fetchRepoFileTree_def branches_def)
  ultimately show ?thesis by simp
qed

theorem missing_tree_gives_empty_witness:
  "serve [(''main'', Response 200 (Json (JObj [(''sha'', JStr ''abc''), (''tree'', JNull)])))]
     (treeUrl ''octo'' ''demo'' ''main'')
     = Response 200 (Json (JObj [(''sha'', JStr ''abc''), (''tree'', JNull)]))
   \<and> ok 200
   \<and> map_of [(''sha'', JStr ''abc''), (''tree'', JNull)] ''tree'' = Some JNull
   \<and> fetchRepoFileTree
        (serve [(''main'', Response 200 (Json (JObj [(''sha'', JStr ''abc''), (''tree'', JNull)])))])
        ''octo'' ''demo'' s0
       = (Inr [], \<lparr>requests = [treeUrl ''octo'' ''demo'' ''main''], console = []\<rparr>)"
proof -
  let ?r = "serve [(''main'', Response 200 (Json (JObj [(''sha'', JStr ''abc''), (''tree'', JNull)])))]"
  have h1: "?r (treeUrl ''octo'' ''demo'' ''main'')
              = Response 200 (Json (JObj [(''sha'', JStr ''abc''), (''tree'', JNull)]))"
    by (simp add: serve_def treeUrl_def)
  have h2: "ok 200" by (simp add: ok_def)
  have h3: "map_of [(''sha'', JStr ''abc''), (''tree'', JNull)] ''tree'' = Some JNull" by simp
  have run: "console (snd (fetchRepoFileTree ?r ''octo'' ''demo'' s0)) = []"
    by (simp add: eval_defs)
  have "fst (fetchRepoFileTree ?r ''octo'' ''demo'' s0) = Inr []
        \<and> requests (snd (fetchRepoFileTree ?r ''octo'' ''demo'' s0)) = [treeUrl ''octo'' ''demo'' ''main'']"
    using h1 h2 h3
      missing_tree_gives_empty [where remote = ?r and own = "''octo''" and rep = "''demo''"
        and status = 200 and kvs = "[(''sha'', JStr ''abc''), (''tree'', JNull)]" and s = s0]
    by (simp add: s0_def)
  then have "fetchRepoFileTree ?r ''octo'' ''demo'' s0
       = (Inr [], \<lparr>requests = [treeUrl ''octo'' ''demo'' ''main''], console = []\<rparr>)"
    using run by (cases "fetchRepoFileTree ?r ''octo'' ''demo'' s0") auto
  then show ?thesis using h1 h2 h3 by simp
qed


end
